theory Spec2Isabelle
  imports Main "HOL-Library.Word"
begin

unbundle bit_operations_syntax

section \<open>Go values: bytes, slices and the heap of backing arrays\<close>

text \<open>
  \<^verbatim>\<open>net.IP\<close> and \<^verbatim>\<open>net.IPMask\<close> are byte slices. A slice value is a header that points
  to a backing array; assigning a slice (\<^verbatim>\<open>networkIP := subnet.IP\<close>, \<^verbatim>\<open>start = networkIP\<close>)
  copies the header, so both names read and write the same array. The heap is the list of
  backing arrays, an address is an index into it, and a slice is \<open>None\<close> (Go's nil) or the
  address of its array. \<^verbatim>\<open>make\<close> appends a new array to the heap.
\<close>

type_synonym byte = "8 word"
type_synonym addr = nat
type_synonym heap = "byte list list"
type_synonym IP = "addr option"

record IPNet =
  IP :: IP
  Mask :: IP

datatype panic = IndexOutOfRange | NilMapAssignment

text \<open>
  The contents of a slice; a nil slice has length 0. Every slice spans the whole of its array,
  as the slices that \<^verbatim>\<open>net.ParseCIDR\<close>, \<^verbatim>\<open>net.ParseIP\<close>, \<^verbatim>\<open>net.IPv4\<close> and \<^verbatim>\<open>make\<close>
  return do. An address beyond the heap, which no Go program can hold, reads as empty.
\<close>

definition bytes :: "heap \<Rightarrow> IP \<Rightarrow> byte list" where
  "bytes h p = (case p of None \<Rightarrow> [] | Some a \<Rightarrow> if a < length h then h ! a else [])"

text \<open>\<^verbatim>\<open>p[3]++\<close> and \<^verbatim>\<open>p[3]--\<close> on the array behind a non-nil slice of at least 4 bytes.\<close>

definition incr3 :: "heap \<Rightarrow> IP \<Rightarrow> heap" where
  "incr3 h p = (case p of None \<Rightarrow> h | Some a \<Rightarrow> h[a := (h ! a)[3 := (h ! a) ! 3 + 1]])"

definition decr3 :: "heap \<Rightarrow> IP \<Rightarrow> heap" where
  "decr3 h p = (case p of None \<Rightarrow> h | Some a \<Rightarrow> h[a := (h ! a)[3 := (h ! a) ! 3 - 1]])"

section \<open>The Go library functions that FindFreeIP calls\<close>

text \<open>
  \<^verbatim>\<open>bytes.Compare(a, b)\<close>: lexicographic comparison of two byte slices, \<open>-1\<close>, \<open>0\<close> or
  \<open>1\<close>; a proper prefix is smaller, a nil slice is an empty one.
\<close>

fun bytes_Compare :: "byte list \<Rightarrow> byte list \<Rightarrow> int" where
  "bytes_Compare [] [] = 0"
| "bytes_Compare [] (y # ys) = - 1"
| "bytes_Compare (x # xs) [] = 1"
| "bytes_Compare (x # xs) (y # ys) =
     (if x < y then - 1 else if y < x then 1 else bytes_Compare xs ys)"

definition v4InV6Prefix :: "byte list" where
  "v4InV6Prefix = [0, 0, 0, 0, 0, 0, 0, 0, 0, 0, 0xff, 0xff]"

text \<open>\<^verbatim>\<open>net.IPv4(a, b, c, d)\<close>: a new 16-byte slice, the IPv4-mapped form of a.b.c.d.\<close>

definition net_IPv4 :: "byte \<Rightarrow> byte \<Rightarrow> byte \<Rightarrow> byte \<Rightarrow> byte list" where
  "net_IPv4 a b c d = v4InV6Prefix @ [a, b, c, d]"

text \<open>
  \<^verbatim>\<open>ip.Equal(x)\<close>: equal slices, or one the 4-byte and the other the 16-byte form of the
  same IPv4 address.
\<close>

definition IP_Equal :: "byte list \<Rightarrow> byte list \<Rightarrow> bool" where
  "IP_Equal ip x =
     (if length ip = length x then ip = x
      else if length ip = 4 \<and> length x = 16 then take 12 x = v4InV6Prefix \<and> ip = drop 12 x
      else if length ip = 16 \<and> length x = 4 then take 12 ip = v4InV6Prefix \<and> drop 12 ip = x
      else False)"

text \<open>\<^verbatim>\<open>binary.LittleEndian.PutUint32(b, v)\<close> on a 4-byte slice.\<close>

definition LittleEndian_PutUint32 :: "32 word \<Rightarrow> byte list" where
  "LittleEndian_PutUint32 v =
     [ucast v, ucast (drop_bit 8 v), ucast (drop_bit 16 v), ucast (drop_bit 24 v)]"

section \<open>FindFreeIP (lxf/networking.go)\<close>

text \<open>
  The statements before the loop. \<^verbatim>\<open>subnet.IP[i]\<close> and \<^verbatim>\<open>subnet.Mask[i]\<close> for \<open>i < 4\<close>
  panic on a slice shorter than 4 bytes. \<^verbatim>\<open>broadcastIP\<close> is a new array of 4 bytes,
  filled byte by byte (\<open>broadcast_of\<close>);
  \<^verbatim>\<open>networkIP\<close> is the header of \<^verbatim>\<open>subnet.IP\<close>. Both headers are appended to the leases;
  \<^verbatim>\<open>append\<close> leaves the elements that the caller's slice of leases spans as they are.
  A nil \<^verbatim>\<open>start\<close> becomes the header \<^verbatim>\<open>networkIP\<close> and \<^verbatim>\<open>start[3]++\<close> writes to its
  array; a nil \<^verbatim>\<open>end\<close> becomes \<^verbatim>\<open>broadcastIP\<close> and \<^verbatim>\<open>end[3]--\<close> writes to that one.
  The result is the heap, the leases, \<^verbatim>\<open>start\<close> and \<^verbatim>\<open>end\<close> as the loop finds them.
\<close>

definition broadcast_of :: "byte list \<Rightarrow> byte list \<Rightarrow> byte list" where
  "broadcast_of ip m =
     [ip ! 0 OR NOT (m ! 0), ip ! 1 OR NOT (m ! 1), ip ! 2 OR NOT (m ! 2), ip ! 3 OR NOT (m ! 3)]"

definition FindFreeIP_init ::
  "heap \<Rightarrow> IPNet \<Rightarrow> IP list \<Rightarrow> IP \<Rightarrow> IP \<Rightarrow> panic + (heap \<times> IP list \<times> IP \<times> IP)" where
  "FindFreeIP_init h subnet leases start end0 =
     (if length (bytes h (IP subnet)) < 4 \<or> length (bytes h (Mask subnet)) < 4
      then Inl IndexOutOfRange
      else
        let networkIP = IP subnet;
            broadcastIP = Some (length h);
            h1 = h @ [broadcast_of (bytes h (IP subnet)) (bytes h (Mask subnet))];
            leases1 = leases @ [networkIP, broadcastIP];
            (start1, h2) = (if start = None then (networkIP, incr3 h1 networkIP) else (start, h1));
            (end1, h3) = (if end0 = None then (broadcastIP, decr3 h2 broadcastIP) else (end0, h2))
        in Inr (h3, leases1, start1, end1))"

text \<open>
  One candidate: the four little-endian bytes of a random 32-bit value, each masked to the
  host bits and added (modulo 256) to the byte of \<^verbatim>\<open>subnet.IP\<close>, as a 16-byte address.
\<close>

definition trial_of :: "heap \<Rightarrow> IPNet \<Rightarrow> 32 word \<Rightarrow> byte list" where
  "trial_of h subnet r =
     (let v = LittleEndian_PutUint32 r;
          ip = bytes h (IP subnet);
          m = bytes h (Mask subnet);
          trialB = [ip ! 0 + (v ! 0 AND NOT (m ! 0)), ip ! 1 + (v ! 1 AND NOT (m ! 1)),
                    ip ! 2 + (v ! 2 AND NOT (m ! 2)), ip ! 3 + (v ! 3 AND NOT (m ! 3))]
      in net_IPv4 (trialB ! 0) (trialB ! 1) (trialB ! 2) (trialB ! 3))"

text \<open>The two rejections of the loop body.\<close>

definition outside_range :: "heap \<Rightarrow> IP \<Rightarrow> IP \<Rightarrow> byte list \<Rightarrow> bool" where
  "outside_range h start end0 trial =
     (bytes_Compare trial (bytes h start) < 0 \<or> bytes_Compare trial (bytes h end0) > 0)"

definition in_leases :: "heap \<Rightarrow> IP list \<Rightarrow> byte list \<Rightarrow> bool" where
  "in_leases h leases trial = list_ex (\<lambda>lease. IP_Equal trial (bytes h lease)) leases"

definition accepted :: "heap \<Rightarrow> IP list \<Rightarrow> IP \<Rightarrow> IP \<Rightarrow> byte list \<Rightarrow> bool" where
  "accepted h leases start end0 trial =
     (\<not> outside_range h start end0 trial \<and> \<not> in_leases h leases trial)"

text \<open>
  The loop has no bound. The values of \<^verbatim>\<open>rand.Uint32()\<close> are the stream \<open>rnd\<close>, \<open>n\<close> the
  index of the next draw; \<open>None\<close> means that the loop runs forever.
\<close>

partial_function (option) FindFreeIP_loop ::
  "(nat \<Rightarrow> 32 word) \<Rightarrow> heap \<Rightarrow> IPNet \<Rightarrow> IP list \<Rightarrow> IP \<Rightarrow> IP \<Rightarrow> nat \<Rightarrow> byte list option" where
  "FindFreeIP_loop rnd h subnet leases start end0 n =
     (let trial = trial_of h subnet (rnd n) in
      if outside_range h start end0 trial then FindFreeIP_loop rnd h subnet leases start end0 (Suc n)
      else if in_leases h leases trial then FindFreeIP_loop rnd h subnet leases start end0 (Suc n)
      else Some trial)"

declare FindFreeIP_loop.simps [code]

text \<open>
  The whole function: \<open>None\<close> if it never returns, a panic, or the returned address (the
  contents of the new slice \<^verbatim>\<open>trial\<close>) with the heap the caller finds afterwards.
\<close>

definition FindFreeIP ::
  "(nat \<Rightarrow> 32 word) \<Rightarrow> heap \<Rightarrow> IPNet \<Rightarrow> IP list \<Rightarrow> IP \<Rightarrow> IP \<Rightarrow> (panic + byte list \<times> heap) option" where
  "FindFreeIP rnd h subnet leases start end0 =
     (case FindFreeIP_init h subnet leases start end0 of
        Inl p \<Rightarrow> Some (Inl p)
      | Inr (h', leases', start', end') \<Rightarrow>
          (case FindFreeIP_loop rnd h' subnet leases' start' end' 0 of
             None \<Rightarrow> None
           | Some ip \<Rightarrow> Some (Inr (ip, h'))))"

text \<open>A random source that always draws the same value.\<close>

definition draws :: "32 word \<Rightarrow> nat \<Rightarrow> 32 word" where
  "draws c n = c"

subsection \<open>Addresses as numbers\<close>

text \<open>
  The value of a byte slice read as a big-endian number, and \<^verbatim>\<open>ip.To4()\<close>, the 4-byte
  form of an IPv4 address given in either form (nil, here the empty list, for anything else).
\<close>

fun be_val :: "byte list \<Rightarrow> nat" where
  "be_val [] = 0"
| "be_val (x # xs) = unat x * 256 ^ length xs + be_val xs"

definition To4 :: "byte list \<Rightarrow> byte list" where
  "To4 ip =
     (if length ip = 4 then ip
      else if length ip = 16 \<and> take 12 ip = v4InV6Prefix then drop 12 ip
      else [])"

subsection \<open>The other FindFreeIP of the repository\<close>

text \<open>
  A second source file of the package holds a FindFreeIP that differs in two places. The
  defaults are new 16-byte slices,
  \<^verbatim>\<open>start = net.IPv4(networkIP[0], networkIP[1], networkIP[2], networkIP[3]+1)\<close> and
  \<^verbatim>\<open>end = net.IPv4(broadcastIP[0], broadcastIP[1], broadcastIP[2], broadcastIP[3]-1)\<close>, so no
  array of the caller is written; and the range test is
  \<^verbatim>\<open>bytes.Compare(trial, start) <= 0 || bytes.Compare(trial, end) >= 0\<close>.
\<close>

definition FindFreeIP_init_part000 ::
  "heap \<Rightarrow> IPNet \<Rightarrow> IP list \<Rightarrow> IP \<Rightarrow> IP \<Rightarrow> panic + (heap \<times> IP list \<times> IP \<times> IP)" where
  "FindFreeIP_init_part000 h subnet leases start end0 =
     (if length (bytes h (IP subnet)) < 4 \<or> length (bytes h (Mask subnet)) < 4
      then Inl IndexOutOfRange
      else
        let networkIP = bytes h (IP subnet);
            broadcastIP = broadcast_of (bytes h (IP subnet)) (bytes h (Mask subnet));
            h1 = h @ [broadcastIP];
            leases1 = leases @ [IP subnet, Some (length h)];
            (start1, h2) =
              (if start = None
               then (Some (length h1),
                     h1 @ [net_IPv4 (networkIP ! 0) (networkIP ! 1) (networkIP ! 2) (networkIP ! 3 + 1)])
               else (start, h1));
            (end1, h3) =
              (if end0 = None
               then (Some (length h2),
                     h2 @ [net_IPv4 (broadcastIP ! 0) (broadcastIP ! 1) (broadcastIP ! 2)
                             (broadcastIP ! 3 - 1)])
               else (end0, h2))
        in Inr (h3, leases1, start1, end1))"

definition outside_range_part000 :: "heap \<Rightarrow> IP \<Rightarrow> IP \<Rightarrow> byte list \<Rightarrow> bool" where
  "outside_range_part000 h start end0 trial =
     (bytes_Compare trial (bytes h start) \<le> 0 \<or> bytes_Compare trial (bytes h end0) \<ge> 0)"

partial_function (option) FindFreeIP_loop_part000 ::
  "(nat \<Rightarrow> 32 word) \<Rightarrow> heap \<Rightarrow> IPNet \<Rightarrow> IP list \<Rightarrow> IP \<Rightarrow> IP \<Rightarrow> nat \<Rightarrow> byte list option" where
  "FindFreeIP_loop_part000 rnd h subnet leases start end0 n =
     (let trial = trial_of h subnet (rnd n) in
      if outside_range_part000 h start end0 trial
      then FindFreeIP_loop_part000 rnd h subnet leases start end0 (Suc n)
      else if in_leases h leases trial
      then FindFreeIP_loop_part000 rnd h subnet leases start end0 (Suc n)
      else Some trial)"

declare FindFreeIP_loop_part000.simps [code]

definition FindFreeIP_part000 ::
  "(nat \<Rightarrow> 32 word) \<Rightarrow> heap \<Rightarrow> IPNet \<Rightarrow> IP list \<Rightarrow> IP \<Rightarrow> IP \<Rightarrow> (panic + byte list \<times> heap) option" where
  "FindFreeIP_part000 rnd h subnet leases start end0 =
     (case FindFreeIP_init_part000 h subnet leases start end0 of
        Inl p \<Rightarrow> Some (Inl p)
      | Inr (h', leases', start', end') \<Rightarrow>
          (case FindFreeIP_loop_part000 rnd h' subnet leases' start' end' 0 of
             None \<Rightarrow> None
           | Some ip \<Rightarrow> Some (Inr (ip, h'))))"

subsection \<open>Concrete heaps\<close>

text \<open>
  The call that FindFreeIPBridgeLXD makes for a bridge \<^verbatim>\<open>10.0.0.1/24\<close> with one lease
  \<^verbatim>\<open>10.0.0.5\<close>: \<^verbatim>\<open>net.ParseCIDR\<close> gives the subnet a 4-byte address and a 4-byte mask
  and the bridge address 16 bytes, \<^verbatim>\<open>net.ParseIP\<close> gives the lease 16 bytes.
\<close>

definition heap10 :: heap where
  "heap10 = [[10, 0, 0, 0], [255, 255, 255, 0], net_IPv4 10 0 0 5, net_IPv4 10 0 0 1]"

definition subnet10 :: IPNet where
  "subnet10 = \<lparr>IP = Some 0, Mask = Some 1\<rparr>"

definition leases10 :: "IP list" where
  "leases10 = [Some 2, Some 3]"

text \<open>
  The same subnet with explicit bounds: \<^verbatim>\<open>10.0.0.10\<close> in the 16-byte form at address 2,
  \<^verbatim>\<open>10.0.0.20\<close> in the 16-byte form at address 3 and in the 4-byte form at address 4.
\<close>

definition heap_bounds :: heap where
  "heap_bounds = [[10, 0, 0, 0], [255, 255, 255, 0], net_IPv4 10 0 0 10, net_IPv4 10 0 0 20,
                  [10, 0, 0, 20]]"

text \<open>
  An \<^verbatim>\<open>IPNet\<close> whose address is \<^verbatim>\<open>0.0.0.255\<close> with the mask \<^verbatim>\<open>255.255.255.0\<close>.
\<close>

definition heap255 :: heap where
  "heap255 = [[0, 0, 0, 255], [255, 255, 255, 0]]"

text \<open>
  A subnet of one address, \<^verbatim>\<open>10.0.0.7/32\<close>, with the bounds \<^verbatim>\<open>10.0.0.0\<close> and
  \<^verbatim>\<open>10.0.0.255\<close> in the 16-byte form at the addresses 2 and 3.
\<close>

definition heap32 :: heap where
  "heap32 = [[10, 0, 0, 7], [255, 255, 255, 255], net_IPv4 10 0 0 0, net_IPv4 10 0 0 255]"

section \<open>EnsureBridge (lxf/networking.go)\<close>

text \<open>
  A Go \<^verbatim>\<open>error\<close> is modelled by its message, the string \<^verbatim>\<open>err.Error()\<close>; a nil error is
  \<open>None\<close>. A \<^verbatim>\<open>map[string]string\<close> is a partial function, and \<open>None\<close> the nil map, on
  which an assignment panics.
\<close>

type_synonym error = string
type_synonym config = "(string \<rightharpoonup> string) option"

text \<open>
  Modelled from the spec: the constant \<^verbatim>\<open>ErrorLXDNotFound\<close> is declared in a file of the
  package that is not at hand; it is the message of the remote controller's
  distinguishable "not found" condition. Nothing below depends on its value.
\<close>

definition ErrorLXDNotFound :: string where
  "ErrorLXDNotFound = ''not found''"

text \<open>
  The types of \<^verbatim>\<open>lxd/shared/api\<close>. \<^verbatim>\<open>NetworksPost\<close> embeds \<^verbatim>\<open>NetworkPut\<close>;
  \<^verbatim>\<open>Network\<close> embeds \<^verbatim>\<open>NetworkPut\<close> too and has the fields \<^verbatim>\<open>Name\<close>,
  \<^verbatim>\<open>Type\<close> and \<^verbatim>\<open>Managed\<close> of \<^verbatim>\<open>NetworksPost\<close> and three more, so it is written
  as an extension. \<^verbatim>\<open>Writable()\<close> returns the embedded \<^verbatim>\<open>NetworkPut\<close>.
\<close>

record NetworkPut =
  Description :: string
  Config :: config

record NetworksPost = NetworkPut +
  Name :: string
  Type :: string
  Managed :: bool

record Network = NetworksPost +
  UsedBy :: "string list"
  Status :: string
  Locations :: "string list"

definition Writable :: "Network \<Rightarrow> NetworkPut" where
  "Writable network = \<lparr>Description = Description network, Config = Config network\<rparr>"

text \<open>
  The remote controller \<^verbatim>\<open>l.server\<close>, an interface of the LXD client: each call reads and
  changes a state \<open>'s\<close> of the remote side.
\<close>

record 's server =
  GetNetwork :: "string \<Rightarrow> 's \<Rightarrow> (error + Network \<times> string) \<times> 's"
  CreateNetwork :: "NetworksPost \<Rightarrow> 's \<Rightarrow> error option \<times> 's"
  UpdateNetwork :: "string \<Rightarrow> NetworkPut \<Rightarrow> string \<Rightarrow> 's \<Rightarrow> error option \<times> 's"

text \<open>The calls a run of EnsureBridge has made to the server, in order.\<close>

datatype call =
  GetNetworkCall string
| CreateNetworkCall NetworksPost
| UpdateNetworkCall string NetworkPut string

text \<open>
  \<^verbatim>\<open>net.ParseCIDR\<close> (its second result, address and mask of the network) and
  \<^verbatim>\<open>(*IPNet).String\<close> belong to Go's library and are parameters.
\<close>

record netpkg =
  ParseCIDR :: "string \<Rightarrow> error + byte list \<times> byte list"
  IPNet_String :: "byte list \<times> byte list \<Rightarrow> string"

definition FormatBool :: "bool \<Rightarrow> string" where
  "FormatBool b = (if b then ''true'' else ''false'')"

text \<open>The map literal \<^verbatim>\<open>put.Config\<close>.\<close>

definition put_Config :: "string \<Rightarrow> (string \<rightharpoonup> string)" where
  "put_Config address =
     [''ipv4.address'' \<mapsto> address,
      ''ipv4.dhcp'' \<mapsto> FormatBool True,
      ''ipv4.nat'' \<mapsto> FormatBool True,
      ''ipv6.address'' \<mapsto> ''none'',
      ''raw.dnsmasq'' \<mapsto> ''port=0'']"

text \<open>
  The first statement: \<^verbatim>\<open>"auto"\<close> for an empty \<^verbatim>\<open>cidr\<close>; otherwise the parsed network
  with \<^verbatim>\<open>net.IP[3]++\<close>, printed. A parse error is returned, an address shorter than 4
  bytes would panic.
\<close>

definition bridge_address :: "netpkg \<Rightarrow> string \<Rightarrow> (panic + error) + string" where
  "bridge_address lib cidr =
     (if cidr = [] then Inr ''auto''
      else case ParseCIDR lib cidr of
             Inl err \<Rightarrow> Inl (Inr err)
           | Inr (ip, m) \<Rightarrow>
               if length ip < 4 then Inl (Inl IndexOutOfRange)
               else Inr (IPNet_String lib (ip[3 := ip ! 3 + 1], m)))"

text \<open>
  EnsureBridge returns the error (or nil), or panics; the model adds the calls made and the
  state of the remote side afterwards. The loop
  \<^verbatim>\<open>for k, v := range put.Config { network.Config[k] = v }\<close> overrides the network's map
  with the literal's entries.
\<close>

definition EnsureBridge ::
  "'s server \<Rightarrow> netpkg \<Rightarrow> string \<Rightarrow> string \<Rightarrow> bool \<Rightarrow> bool \<Rightarrow> 's
     \<Rightarrow> (panic + error option) \<times> call list \<times> 's" where
  "EnsureBridge srv lib name cidr nat' createOnly s =
     (case bridge_address lib cidr of
        Inl (Inl p) \<Rightarrow> (Inl p, [], s)
      | Inl (Inr err) \<Rightarrow> (Inr (Some err), [], s)
      | Inr address \<Rightarrow>
          (let put = \<lparr>Description = ''managed by LXE, default bridge'',
                      Config = Some (put_Config address)\<rparr>;
               (r, s1) = GetNetwork srv name s
           in (case r of
                 Inl err \<Rightarrow>
                   (if err = ErrorLXDNotFound
                    then (let post = \<lparr>Description = Description put, Config = Config put,
                                       Name = name, Type = ''bridge'', Managed = True\<rparr>;
                              (e, s2) = CreateNetwork srv post s1
                          in (Inr e, [GetNetworkCall name, CreateNetworkCall post], s2))
                    else (Inr (Some err), [GetNetworkCall name], s1))
               | Inr (network, ETag) \<Rightarrow>
                   (if Type network \<noteq> ''bridge''
                    then (Inr (Some (''Expected '' @ name @ '' to be a bridge, but is ''
                                       @ Type network)),
                          [GetNetworkCall name], s1)
                    else if createOnly then (Inr None, [GetNetworkCall name], s1)
                    else (case Config network of
                            None \<Rightarrow> (Inl NilMapAssignment, [GetNetworkCall name], s1)
                          | Some cfg \<Rightarrow>
                              (let network' = network\<lparr>Config := Some (cfg ++ put_Config address)\<rparr>;
                                   (e, s2) = UpdateNetwork srv name (Writable network') ETag s1
                               in (Inr e,
                                   [GetNetworkCall name,
                                    UpdateNetworkCall name (Writable network') ETag],
                                   s2)))))))"

subsection \<open>A remote controller to run EnsureBridge against\<close>

text \<open>
  Modelled from the spec: the remote controller is not part of the repository. This one keeps
  the networks by name, each with a version token. \<^verbatim>\<open>GetNetwork\<close> answers "not found" for
  an unknown name; \<^verbatim>\<open>CreateNetwork\<close> stores the network with token \<open>''0''\<close>;
  \<^verbatim>\<open>UpdateNetwork\<close> replaces description and configuration when the token is the current
  one and leaves a longer token behind, and reports a conflict otherwise.
\<close>

type_synonym lxd = "string \<rightharpoonup> Network \<times> string"

definition lxd_GetNetwork :: "string \<Rightarrow> lxd \<Rightarrow> (error + Network \<times> string) \<times> lxd" where
  "lxd_GetNetwork name s =
     (case s name of None \<Rightarrow> (Inl ErrorLXDNotFound, s) | Some ne \<Rightarrow> (Inr ne, s))"

definition lxd_CreateNetwork :: "NetworksPost \<Rightarrow> lxd \<Rightarrow> error option \<times> lxd" where
  "lxd_CreateNetwork post s =
     (case s (Name post) of
        Some ne \<Rightarrow> (Some ''already exists'', s)
      | None \<Rightarrow>
          (None, s(Name post \<mapsto>
             (\<lparr>Description = Description post, Config = Config post, Name = Name post,
               Type = Type post, Managed = Managed post, UsedBy = [], Status = ''Created'',
               Locations = []\<rparr>, ''0''))))"

definition lxd_UpdateNetwork :: "string \<Rightarrow> NetworkPut \<Rightarrow> string \<Rightarrow> lxd \<Rightarrow> error option \<times> lxd" where
  "lxd_UpdateNetwork name put ETag s =
     (case s name of
        None \<Rightarrow> (Some ErrorLXDNotFound, s)
      | Some (network, tag) \<Rightarrow>
          if ETag \<noteq> tag then (Some ''precondition failed'', s)
          else (None, s(name \<mapsto>
                  (network\<lparr>Description := Description put, Config := Config put\<rparr>, tag @ ''+''))))"

definition lxd_server :: "lxd server" where
  "lxd_server = \<lparr>GetNetwork = lxd_GetNetwork, CreateNetwork = lxd_CreateNetwork,
                  UpdateNetwork = lxd_UpdateNetwork\<rparr>"

text \<open>
  A library stand-in for the runs below. Their \<^verbatim>\<open>cidr\<close> is empty, so that it is never
  called, or has no \<^verbatim>\<open>/\<close>, for which \<^verbatim>\<open>net.ParseCIDR\<close> returns this error.
\<close>

definition no_netpkg :: netpkg where
  "no_netpkg = \<lparr>ParseCIDR = (\<lambda>c. Inl (''invalid CIDR address: '' @ c)),
                 IPNet_String = (\<lambda>n. [])\<rparr>"

text \<open>A call that creates or updates a network with \<^verbatim>\<open>ipv4.nat\<close> set to \<^verbatim>\<open>"true"\<close>.\<close>

definition nat_enabled :: "config \<Rightarrow> bool" where
  "nat_enabled c = (case c of None \<Rightarrow> False | Some cfg \<Rightarrow> cfg ''ipv4.nat'' = Some ''true'')"

fun sets_nat_true :: "call \<Rightarrow> bool" where
  "sets_nat_true (GetNetworkCall name) = True"
| "sets_nat_true (CreateNetworkCall post) = nat_enabled (Config post)"
| "sets_nat_true (UpdateNetworkCall name put ETag) = nat_enabled (Config put)"

text \<open>A call that writes to the remote controller.\<close>

fun is_write :: "call \<Rightarrow> bool" where
  "is_write (GetNetworkCall name) = False"
| "is_write (CreateNetworkCall post) = True"
| "is_write (UpdateNetworkCall name put ETag) = True"

text \<open>An existing bridge \<^verbatim>\<open>br0\<close> with two configuration keys, one of them a desired key.\<close>

definition br0 :: Network where
  "br0 = \<lparr>Description = ''old'', Config = Some [''ipv4.nat'' \<mapsto> ''false'', ''user.x'' \<mapsto> ''y''],
          Name = ''br0'', Type = ''bridge'', Managed = True, UsedBy = [], Status = ''Created'',
          Locations = []\<rparr>"

definition lxd_br0 :: lxd where
  "lxd_br0 = [''br0'' \<mapsto> (br0, ''7'')]"

text \<open>The remote side after one update of \<^verbatim>\<open>br0\<close> with the desired keys for \<^verbatim>\<open>"auto"\<close>.\<close>

definition lxd_br0_merged :: lxd where
  "lxd_br0_merged =
     [''br0'' \<mapsto> (br0\<lparr>Config := Some ([''ipv4.nat'' \<mapsto> ''false'', ''user.x'' \<mapsto> ''y'']
                                         ++ put_Config ''auto'')\<rparr>, ''7+'')]"

section \<open>DetachCNI (lxf/networking.go)\<close>

text \<open>
  The container's lookups \<^verbatim>\<open>c.Sandbox()\<close> and \<^verbatim>\<open>c.State()\<close> and the function
  \<^verbatim>\<open>network.DetachCNIInterface\<close> are defined outside this file; they are parameters that
  read and change a state \<open>'w\<close> of the outside world.
\<close>

record Metadata =
  Namespace :: string
  Metadata_Name :: string

record Sandbox =
  Metadata :: Metadata

record ContainerState =
  Pid :: "64 word"

record Container =
  ID :: string

record 'w runtime =
  Sandbox_lookup :: "Container \<Rightarrow> 'w \<Rightarrow> (error + Sandbox) \<times> 'w"
  State_lookup :: "Container \<Rightarrow> 'w \<Rightarrow> (error + ContainerState) \<times> 'w"
  DetachCNIInterface :: "string \<Rightarrow> string \<Rightarrow> string \<Rightarrow> 64 word \<Rightarrow> 'w \<Rightarrow> error option \<times> 'w"

datatype cni_call =
  SandboxCall
| StateCall
| DetachCNIInterfaceCall string string string "64 word"

definition DetachCNI ::
  "'w runtime \<Rightarrow> Container \<Rightarrow> 'w \<Rightarrow> error option \<times> cni_call list \<times> 'w" where
  "DetachCNI rt c w =
     (let (r1, w1) = Sandbox_lookup rt c w in
      (case r1 of
         Inl err \<Rightarrow> (Some err, [SandboxCall], w1)
       | Inr s \<Rightarrow>
           (let (r2, w2) = State_lookup rt c w1;
                detach = (\<lambda>pid.
                  (let (e, w3) = DetachCNIInterface rt (Namespace (Metadata s))
                                   (Metadata_Name (Metadata s)) (ID c) pid w2
                   in (e, [SandboxCall, StateCall,
                           DetachCNIInterfaceCall (Namespace (Metadata s))
                             (Metadata_Name (Metadata s)) (ID c) pid], w3)))
            in (case r2 of
                  Inl err \<Rightarrow>
                    (if err \<noteq> ErrorLXDNotFound then (Some err, [SandboxCall, StateCall], w2)
                     else detach 0)
                | Inr st \<Rightarrow> detach (Pid st)))))"

text \<open>
  A world for concrete runs: the state counts the calls made; the sandbox lookup succeeds,
  the state lookup gives the answer the world was built with, and the CNI delete succeeds.
\<close>

definition test_runtime :: "(error + ContainerState) \<Rightarrow> nat runtime" where
  "test_runtime st =
     \<lparr>Sandbox_lookup = (\<lambda>c w. (Inr \<lparr>Metadata = \<lparr>Namespace = ''default'', Metadata_Name = ''nginx''\<rparr>\<rparr>,
                                Suc w)),
      State_lookup = (\<lambda>c w. (st, Suc w)),
      DetachCNIInterface = (\<lambda>ns n i pid w. (None, Suc w))\<rparr>"

section \<open>The loop of FindFreeIP\<close>

text \<open>If the loop returns, it returns the first accepted candidate of the stream.\<close>

lemma FindFreeIP_loop_SomeD:
  assumes "FindFreeIP_loop rnd h subnet leases start end0 n = Some y"
  shows "\<exists>k\<ge>n. accepted h leases start end0 (trial_of h subnet (rnd k)) \<and> y = trial_of h subnet (rnd k)
           \<and> (\<forall>j. n \<le> j \<and> j < k \<longrightarrow> \<not> accepted h leases start end0 (trial_of h subnet (rnd j)))"
proof (rule FindFreeIP_loop.raw_induct[where P = "\<lambda>rnd h subnet leases start end0 n y.
     \<exists>k\<ge>n. accepted h leases start end0 (trial_of h subnet (rnd k)) \<and> y = trial_of h subnet (rnd k)
           \<and> (\<forall>j. n \<le> j \<and> j < k \<longrightarrow> \<not> accepted h leases start end0 (trial_of h subnet (rnd j)))", OF _ assms])
  fix loop rnd h subnet leases start end0 n y
  assume IH: "\<And>rnd h subnet leases start end0 n y. loop rnd h subnet leases start end0 n = Some y \<Longrightarrow>
     \<exists>k\<ge>n. accepted h leases start end0 (trial_of h subnet (rnd k)) \<and> y = trial_of h subnet (rnd k)
           \<and> (\<forall>j. n \<le> j \<and> j < k \<longrightarrow> \<not> accepted h leases start end0 (trial_of h subnet (rnd j)))"
    and body: "(let trial = trial_of h subnet (rnd n) in
      if outside_range h start end0 trial then loop rnd h subnet leases start end0 (Suc n)
      else if in_leases h leases trial then loop rnd h subnet leases start end0 (Suc n)
      else Some trial) = Some y"
  show "\<exists>k\<ge>n. accepted h leases start end0 (trial_of h subnet (rnd k)) \<and> y = trial_of h subnet (rnd k)
           \<and> (\<forall>j. n \<le> j \<and> j < k \<longrightarrow> \<not> accepted h leases start end0 (trial_of h subnet (rnd j)))"
  proof (cases "accepted h leases start end0 (trial_of h subnet (rnd n))")
    case True
    with body have "y = trial_of h subnet (rnd n)"
      by (simp add: accepted_def Let_def)
    with True show ?thesis by (intro exI[of _ n]) auto
  next
    case False
    with body have "loop rnd h subnet leases start end0 (Suc n) = Some y"
      by (auto simp: accepted_def Let_def split: if_splits)
    from IH[OF this] obtain k where k: "Suc n \<le> k"
      "accepted h leases start end0 (trial_of h subnet (rnd k))" "y = trial_of h subnet (rnd k)"
      "\<forall>j. Suc n \<le> j \<and> j < k \<longrightarrow> \<not> accepted h leases start end0 (trial_of h subnet (rnd j))"
      by blast
    have "\<forall>j. n \<le> j \<and> j < k \<longrightarrow> \<not> accepted h leases start end0 (trial_of h subnet (rnd j))"
    proof (intro allI impI)
      fix j assume "n \<le> j \<and> j < k"
      then show "\<not> accepted h leases start end0 (trial_of h subnet (rnd j))"
        using False k(4) by (cases "j = n") auto
    qed
    with k show ?thesis by (intro exI[of _ k]) simp
  qed
qed

text \<open>The loop returns the first accepted candidate, by induction on its distance.\<close>

lemma FindFreeIP_loop_SomeI:
  assumes "accepted h leases start end0 (trial_of h subnet (rnd k))"
    and "\<forall>j. n \<le> j \<and> j < k \<longrightarrow> \<not> accepted h leases start end0 (trial_of h subnet (rnd j))"
    and "n \<le> k"
  shows "FindFreeIP_loop rnd h subnet leases start end0 n = Some (trial_of h subnet (rnd k))"
  using assms
proof (induction "k - n" arbitrary: n)
  case 0
  then have "n = k" by simp
  with "0.prems"(1) show ?case
    by (subst FindFreeIP_loop.simps) (simp add: accepted_def Let_def)
next
  case (Suc d)
  then have lt: "n < k" by simp
  with Suc.prems(2) have rej: "\<not> accepted h leases start end0 (trial_of h subnet (rnd n))" by simp
  have "d = k - Suc n" using Suc.hyps(2) by simp
  moreover have "\<forall>j. Suc n \<le> j \<and> j < k \<longrightarrow> \<not> accepted h leases start end0 (trial_of h subnet (rnd j))"
    using Suc.prems(2) by simp
  moreover have "Suc n \<le> k" using lt by simp
  ultimately have "FindFreeIP_loop rnd h subnet leases start end0 (Suc n) = Some (trial_of h subnet (rnd k))"
    using Suc.hyps(1)[of "Suc n"] Suc.prems(1) by blast
  with rej show ?case
    by (subst FindFreeIP_loop.simps) (auto simp: accepted_def Let_def)
qed

lemma FindFreeIP_loop_None_iff:
  "FindFreeIP_loop rnd h subnet leases start end0 n = None \<longleftrightarrow>
     (\<forall>k\<ge>n. \<not> accepted h leases start end0 (trial_of h subnet (rnd k)))"
proof
  assume none: "FindFreeIP_loop rnd h subnet leases start end0 n = None"
  show "\<forall>k\<ge>n. \<not> accepted h leases start end0 (trial_of h subnet (rnd k))"
  proof (rule ccontr)
    assume "\<not> (\<forall>k\<ge>n. \<not> accepted h leases start end0 (trial_of h subnet (rnd k)))"
    then have ex: "\<exists>k. n \<le> k \<and> accepted h leases start end0 (trial_of h subnet (rnd k))" by blast
    define k where "k = (LEAST k. n \<le> k \<and> accepted h leases start end0 (trial_of h subnet (rnd k)))"
    have k: "n \<le> k \<and> accepted h leases start end0 (trial_of h subnet (rnd k))"
      unfolding k_def using ex by (rule LeastI_ex)
    have "\<forall>j. n \<le> j \<and> j < k \<longrightarrow> \<not> accepted h leases start end0 (trial_of h subnet (rnd j))"
      unfolding k_def using not_less_Least by blast
    with k have "FindFreeIP_loop rnd h subnet leases start end0 n = Some (trial_of h subnet (rnd k))"
      by (intro FindFreeIP_loop_SomeI) auto
    with none show False by simp
  qed
next
  assume rej: "\<forall>k\<ge>n. \<not> accepted h leases start end0 (trial_of h subnet (rnd k))"
  show "FindFreeIP_loop rnd h subnet leases start end0 n = None"
  proof (cases "FindFreeIP_loop rnd h subnet leases start end0 n")
    case None
    then show ?thesis .
  next
    case (Some y)
    from FindFreeIP_loop_SomeD[OF this] rej show ?thesis by blast
  qed
qed

section \<open>FindFreeIP as a whole\<close>

lemma FindFreeIP_Some_iff:
  assumes "FindFreeIP_init h subnet leases start end0 = Inr (h', leases', start', end')"
  shows "FindFreeIP rnd h subnet leases start end0 = Some res \<longleftrightarrow>
     (\<exists>k. accepted h' leases' start' end' (trial_of h' subnet (rnd k))
        \<and> (\<forall>j<k. \<not> accepted h' leases' start' end' (trial_of h' subnet (rnd j)))
        \<and> res = Inr (trial_of h' subnet (rnd k), h'))"
proof
  assume "FindFreeIP rnd h subnet leases start end0 = Some res"
  with assms obtain ip where ip: "FindFreeIP_loop rnd h' subnet leases' start' end' 0 = Some ip"
    and res: "res = Inr (ip, h')"
    by (auto simp: FindFreeIP_def split: option.splits)
  from FindFreeIP_loop_SomeD[OF ip] res
  show "\<exists>k. accepted h' leases' start' end' (trial_of h' subnet (rnd k))
        \<and> (\<forall>j<k. \<not> accepted h' leases' start' end' (trial_of h' subnet (rnd j)))
        \<and> res = Inr (trial_of h' subnet (rnd k), h')"
    by auto
next
  assume "\<exists>k. accepted h' leases' start' end' (trial_of h' subnet (rnd k))
        \<and> (\<forall>j<k. \<not> accepted h' leases' start' end' (trial_of h' subnet (rnd j)))
        \<and> res = Inr (trial_of h' subnet (rnd k), h')"
  then obtain k where k: "accepted h' leases' start' end' (trial_of h' subnet (rnd k))"
    "\<forall>j<k. \<not> accepted h' leases' start' end' (trial_of h' subnet (rnd j))"
    "res = Inr (trial_of h' subnet (rnd k), h')" by blast
  have "FindFreeIP_loop rnd h' subnet leases' start' end' 0 = Some (trial_of h' subnet (rnd k))"
    using k(1,2) by (intro FindFreeIP_loop_SomeI) auto
  with assms k(3) show "FindFreeIP rnd h subnet leases start end0 = Some res"
    by (simp add: FindFreeIP_def)
qed

lemma FindFreeIP_None_iff:
  assumes "FindFreeIP_init h subnet leases start end0 = Inr (h', leases', start', end')"
  shows "FindFreeIP rnd h subnet leases start end0 = None \<longleftrightarrow>
     (\<forall>k. \<not> accepted h' leases' start' end' (trial_of h' subnet (rnd k)))"
  using assms FindFreeIP_loop_None_iff[of rnd h' subnet leases' start' end' 0]
  by (auto simp: FindFreeIP_def split: option.splits)

lemma FindFreeIP_first_draw:
  assumes "FindFreeIP_init h subnet leases start end0 = Inr (h', leases', start', end')"
    and "accepted h' leases' start' end' (trial_of h' subnet (rnd 0))"
  shows "FindFreeIP rnd h subnet leases start end0 = Some (Inr (trial_of h' subnet (rnd 0), h'))"
  using assms(2) by (subst FindFreeIP_Some_iff[OF assms(1)]) (intro exI[of _ 0], simp)

section \<open>Byte order and numeric order\<close>

lemma be_val_bound: "be_val xs < 256 ^ length xs"
proof (induction xs)
  case Nil
  show ?case by simp
next
  case (Cons x xs)
  have x: "unat x < 256" using unsigned_less[of x] by simp
  have "unat x * 256 ^ length xs + be_val xs < (unat x + 1) * 256 ^ length xs"
    using Cons.IH by simp
  also have "\<dots> \<le> 256 * 256 ^ length xs"
    using x by (intro mult_le_mono1) simp
  finally show ?case by simp
qed

lemma be_val_Cons_less:
  assumes "x < y" and "length xs = length ys"
  shows "be_val (x # xs) < be_val (y # ys)"
proof -
  have "unat x < unat y" using assms(1) by (simp add: word_less_nat_alt)
  then have "(unat x + 1) * 256 ^ length xs \<le> unat y * 256 ^ length xs"
    by (intro mult_le_mono1) simp
  moreover have "unat x * 256 ^ length xs + be_val xs < (unat x + 1) * 256 ^ length xs"
    using be_val_bound[of xs] by simp
  ultimately show ?thesis using assms(2) by simp
qed

lemma bytes_Compare_be_val:
  assumes "length a = length b"
  shows "(bytes_Compare a b < 0 \<longleftrightarrow> be_val a < be_val b)
       \<and> (bytes_Compare a b > 0 \<longleftrightarrow> be_val b < be_val a)"
  using assms
proof (induction a b rule: list_induct2)
  case Nil
  show ?case by simp
next
  case (Cons x xs y ys)
  consider "x < y" | "y < x" | "x = y" by (metis linorder_less_linear)
  then show ?case
  proof cases
    case 1
    from be_val_Cons_less[OF 1 Cons.hyps] have "be_val (x # xs) < be_val (y # ys)" .
    with 1 show ?thesis by auto
  next
    case 2
    from be_val_Cons_less[OF 2 Cons.hyps[symmetric]] have "be_val (y # ys) < be_val (x # xs)" .
    with 2 show ?thesis by auto
  next
    case 3
    with Cons.IH Cons.hyps show ?thesis by simp
  qed
qed

lemma outside_range_be_val:
  assumes "length trial = length (bytes h start)" and "length trial = length (bytes h end0)"
  shows "\<not> outside_range h start end0 trial \<longleftrightarrow>
           be_val (bytes h start) \<le> be_val trial \<and> be_val trial \<le> be_val (bytes h end0)"
  using bytes_Compare_be_val[OF assms(1)] bytes_Compare_be_val[OF assms(2)]
  by (auto simp: outside_range_def)

lemma bytes_Compare_refl: "bytes_Compare a a = 0"
  by (induction a) auto

lemma length_trial_of: "length (trial_of h subnet r) = 16"
  by (simp add: trial_of_def net_IPv4_def v4InV6Prefix_def Let_def)

lemma trial_of_hd: "\<exists>xs. trial_of h subnet r = 0 # xs"
  by (simp add: trial_of_def net_IPv4_def v4InV6Prefix_def Let_def)

text \<open>
  A 16-byte candidate is below every slice whose first byte is not 0, the 4-byte form of
  10.0.0.1 for one.
\<close>

lemma trial_below_nonzero_head:
  assumes "bytes h start = x # xs" and "x \<noteq> 0"
  shows "outside_range h start end0 (trial_of h subnet r)"
proof -
  obtain ys where ys: "trial_of h subnet r = 0 # ys" using trial_of_hd by blast
  have "0 < x" using assms(2) by (simp add: word_greater_zero_iff)
  then show ?thesis by (simp add: outside_range_def ys assms(1))
qed

section \<open>The statements before the loop\<close>

lemma FindFreeIP_init_explicit:
  assumes "4 \<le> length (bytes h (IP subnet))" and "4 \<le> length (bytes h (Mask subnet))"
  shows "FindFreeIP_init h subnet leases (Some s) (Some e) =
           Inr (h @ [broadcast_of (bytes h (IP subnet)) (bytes h (Mask subnet))],
                leases @ [IP subnet, Some (length h)], Some s, Some e)"
  using assms by (simp add: FindFreeIP_init_def Let_def)

lemma FindFreeIP_init_Inr_lengths:
  assumes "FindFreeIP_init h subnet leases start end0 = Inr x"
  shows "4 \<le> length (bytes h (IP subnet)) \<and> 4 \<le> length (bytes h (Mask subnet))"
  using assms by (auto simp: FindFreeIP_init_def split: if_splits)

text \<open>With a nil start the array of \<^verbatim>\<open>subnet.IP\<close> is written.\<close>

lemma FindFreeIP_init_nil_start_writes:
  assumes "FindFreeIP_init h subnet leases None end0 = Inr (h', leases', start', end')"
    and "IP subnet = Some a" and "a < length h"
  shows "h' ! a = (h ! a)[3 := h ! a ! 3 + 1] \<and> start' = Some a \<and> leases' ! length leases = Some a
           \<and> length h' = Suc (length h)"
  using assms
  by (auto simp: FindFreeIP_init_def Let_def incr3_def decr3_def nth_append bytes_def
           split: if_splits)

text \<open>With a start of the caller no array of the caller is written.\<close>

lemma FindFreeIP_init_explicit_start_frame:
  assumes "FindFreeIP_init h subnet leases (Some s) end0 = Inr (h', leases', start', end')"
  shows "take (length h) h' = h"
  using assms
  by (auto simp: FindFreeIP_init_def Let_def decr3_def split: if_splits)

section \<open>Claims about FindFreeIP\<close>

text \<open>
  Claim C5. When every candidate that passes the range check is reserved, so that no
  candidate is accepted, FindFreeIP does not terminate for any random source: it returns no
  value and reports no error. It returns exactly when an accepted candidate is drawn, and
  then it returns such a candidate. The hypothesis is that the statements before the loop did
  not panic, which they do only on a subnet address or mask of less than 4 bytes.
\<close>

theorem FindFreeIP_terminates_iff_accepted_drawn:
  assumes "FindFreeIP_init h subnet leases start end0 = Inr (h', leases', start', end')"
  shows "((\<forall>r. \<not> accepted h' leases' start' end' (trial_of h' subnet r))
            \<longrightarrow> FindFreeIP rnd h subnet leases start end0 = None)
       \<and> ((\<exists>res. FindFreeIP rnd h subnet leases start end0 = Some res)
            \<longleftrightarrow> (\<exists>n. accepted h' leases' start' end' (trial_of h' subnet (rnd n))))
       \<and> (\<forall>res. FindFreeIP rnd h subnet leases start end0 = Some res
            \<longrightarrow> (\<exists>n. accepted h' leases' start' end' (trial_of h' subnet (rnd n))
                      \<and> res = Inr (trial_of h' subnet (rnd n), h')))"
proof (intro conjI)
  show "(\<forall>r. \<not> accepted h' leases' start' end' (trial_of h' subnet r))
            \<longrightarrow> FindFreeIP rnd h subnet leases start end0 = None"
    by (simp add: FindFreeIP_None_iff[OF assms])
  show "(\<exists>res. FindFreeIP rnd h subnet leases start end0 = Some res)
            \<longleftrightarrow> (\<exists>n. accepted h' leases' start' end' (trial_of h' subnet (rnd n)))"
    using FindFreeIP_None_iff[OF assms, of rnd] by auto
  show "\<forall>res. FindFreeIP rnd h subnet leases start end0 = Some res
            \<longrightarrow> (\<exists>n. accepted h' leases' start' end' (trial_of h' subnet (rnd n))
                      \<and> res = Inr (trial_of h' subnet (rnd n), h'))"
    using FindFreeIP_Some_iff[OF assms, of rnd] by blast
qed

lemma init_heap32:
  "FindFreeIP_init heap32 subnet10 [] (Some 2) (Some 3) =
     Inr (heap32 @ [[10, 0, 0, 7]], [Some 0, Some 4], Some 2, Some 3)"
  by code_simp

lemma and_host_mask_255: "(x :: byte) AND - 256 = 0"
proof -
  have "(- 256 :: byte) = 0" by simp
  then show ?thesis by (simp only: and_zero_eq)
qed

lemma trial_heap32: "trial_of (heap32 @ [[10, 0, 0, 7]]) subnet10 r = net_IPv4 10 0 0 7"
  by (simp add: trial_of_def heap32_def subnet10_def bytes_def Let_def and_host_mask_255)

theorem FindFreeIP_terminates_iff_accepted_drawn_witness:
  "FindFreeIP_init heap32 subnet10 [] (Some 2) (Some 3)
     = Inr (heap32 @ [[10, 0, 0, 7]], [Some 0, Some 4], Some 2, Some 3)
   \<and> (\<forall>r. \<not> accepted (heap32 @ [[10, 0, 0, 7]]) [Some 0, Some 4] (Some 2) (Some 3)
              (trial_of (heap32 @ [[10, 0, 0, 7]]) subnet10 r))
   \<and> FindFreeIP (draws 0) heap32 subnet10 [] (Some 2) (Some 3) = None
   \<and> accepted (heap10 @ [[10, 0, 0, 255]]) [Some 0, Some 4] (Some 3) (Some 2)
        (trial_of (heap10 @ [[10, 0, 0, 255]]) subnet10 (draws 0x03000000 0))
   \<and> (\<exists>res. FindFreeIP (draws 0x03000000) heap10 subnet10 [] (Some 3) (Some 2) = Some res)"
proof -
  have rej: "\<forall>r. \<not> accepted (heap32 @ [[10, 0, 0, 7]]) [Some 0, Some 4] (Some 2) (Some 3)
              (trial_of (heap32 @ [[10, 0, 0, 7]]) subnet10 r)"
  proof
    fix r
    have "in_leases (heap32 @ [[10, 0, 0, 7]]) [Some 0, Some 4] (net_IPv4 10 0 0 7)"
      by code_simp
    then show "\<not> accepted (heap32 @ [[10, 0, 0, 7]]) [Some 0, Some 4] (Some 2) (Some 3)
              (trial_of (heap32 @ [[10, 0, 0, 7]]) subnet10 r)"
      by (simp add: accepted_def trial_heap32)
  qed
  have init2: "FindFreeIP_init heap10 subnet10 [] (Some 3) (Some 2)
     = Inr (heap10 @ [[10, 0, 0, 255]], [Some 0, Some 4], Some 3, Some 2)"
    by code_simp
  have acc: "accepted (heap10 @ [[10, 0, 0, 255]]) [Some 0, Some 4] (Some 3) (Some 2)
        (trial_of (heap10 @ [[10, 0, 0, 255]]) subnet10 (draws 0x03000000 0))"
    by code_simp
  from FindFreeIP_terminates_iff_accepted_drawn[OF init_heap32, of "draws 0"] rej
  have "FindFreeIP (draws 0) heap32 subnet10 [] (Some 2) (Some 3) = None" by blast
  moreover from FindFreeIP_terminates_iff_accepted_drawn[OF init2, of "draws 0x03000000"] acc
  have "\<exists>res. FindFreeIP (draws 0x03000000) heap10 subnet10 [] (Some 3) (Some 2) = Some res"
    by blast
  ultimately show ?thesis using init_heap32 rej acc by blast
qed

text \<open>
  Claim C2 says that with a non-nil start and end every address that FindFreeIP returns
  lies between them, both included, and that the start and the end themselves can be
  returned. For the subnet \<^verbatim>\<open>10.0.0.0/24\<close>, no leases, the start \<^verbatim>\<open>10.0.0.10\<close> in the
  16-byte form and the end \<^verbatim>\<open>10.0.0.20\<close> in the 4-byte form, FindFreeIP returns
  \<^verbatim>\<open>10.0.0.200\<close>: the 16-byte candidate starts with the byte 0 and compares below the 4-byte
  slice, whose first byte is 10. In the other FindFreeIP, with both bounds in the 16-byte
  form, the range test rejects the candidates \<^verbatim>\<open>10.0.0.10\<close> and \<^verbatim>\<open>10.0.0.20\<close>, the bounds
  themselves, while it lets \<^verbatim>\<open>10.0.0.11\<close> pass.
\<close>

theorem FindFreeIP_four_byte_end_outside_bound:
  "FindFreeIP (draws 0xC8000000) heap_bounds subnet10 [] (Some 2) (Some 4) =
     Some (Inr (net_IPv4 10 0 0 200, heap_bounds @ [[10, 0, 0, 255]]))
   \<and> To4 (bytes heap_bounds (Some 2)) = [10, 0, 0, 10]
   \<and> To4 (bytes heap_bounds (Some 4)) = [10, 0, 0, 20]
   \<and> To4 (net_IPv4 10 0 0 200) = [10, 0, 0, 200]
   \<and> \<not> be_val (To4 (net_IPv4 10 0 0 200)) \<le> be_val (To4 (bytes heap_bounds (Some 4)))
   \<and> FindFreeIP_init_part000 heap_bounds subnet10 [] (Some 2) (Some 3) =
       Inr (heap_bounds @ [[10, 0, 0, 255]], [Some 0, Some 5], Some 2, Some 3)
   \<and> outside_range_part000 (heap_bounds @ [[10, 0, 0, 255]]) (Some 2) (Some 3) (net_IPv4 10 0 0 10)
   \<and> outside_range_part000 (heap_bounds @ [[10, 0, 0, 255]]) (Some 2) (Some 3) (net_IPv4 10 0 0 20)
   \<and> \<not> outside_range_part000 (heap_bounds @ [[10, 0, 0, 255]]) (Some 2) (Some 3)
         (net_IPv4 10 0 0 11)"
proof -
  have run: "FindFreeIP (draws 0xC8000000) heap_bounds subnet10 [] (Some 2) (Some 4) =
     Some (Inr (net_IPv4 10 0 0 200, heap_bounds @ [[10, 0, 0, 255]]))"
    by code_simp
  have s: "To4 (bytes heap_bounds (Some 2)) = [10, 0, 0, 10]"
    by code_simp
  have e: "To4 (bytes heap_bounds (Some 4)) = [10, 0, 0, 20]"
    by code_simp
  have a: "To4 (net_IPv4 10 0 0 200) = [10, 0, 0, 200]"
    by code_simp
  have v: "\<not> be_val [10, 0, 0, 200] \<le> be_val [10, 0, 0, 20]"
    by simp
  have other: "FindFreeIP_init_part000 heap_bounds subnet10 [] (Some 2) (Some 3) =
       Inr (heap_bounds @ [[10, 0, 0, 255]], [Some 0, Some 5], Some 2, Some 3)
   \<and> outside_range_part000 (heap_bounds @ [[10, 0, 0, 255]]) (Some 2) (Some 3) (net_IPv4 10 0 0 10)
   \<and> outside_range_part000 (heap_bounds @ [[10, 0, 0, 255]]) (Some 2) (Some 3) (net_IPv4 10 0 0 20)
   \<and> \<not> outside_range_part000 (heap_bounds @ [[10, 0, 0, 255]]) (Some 2) (Some 3)
         (net_IPv4 10 0 0 11)"
    by code_simp
  from run s e a v other show ?thesis by simp
qed

text \<open>
  Bounds in the form of the candidates. With a non-nil start and end of 16 bytes each,
  every address that FindFreeIP returns lies between them, both included, read as
  big-endian numbers; a candidate passes the range check if and only if it does; and the
  start and the end themselves are returned when they are drawn, not in the leases, and the
  start is not above the end.
\<close>

lemma FindFreeIP_explicit_bounds_inclusive:
  assumes init: "FindFreeIP_init h subnet leases (Some s) (Some e) = Inr (h', leases', start', end')"
    and s: "s < length h" "length (h ! s) = 16"
    and e: "e < length h" "length (h ! e) = 16"
  shows "(\<forall>ip hp. FindFreeIP rnd h subnet leases (Some s) (Some e) = Some (Inr (ip, hp))
            \<longrightarrow> be_val (h ! s) \<le> be_val ip \<and> be_val ip \<le> be_val (h ! e))
       \<and> (\<forall>r. \<not> outside_range h' start' end' (trial_of h' subnet r)
            \<longleftrightarrow> be_val (h ! s) \<le> be_val (trial_of h' subnet r)
                \<and> be_val (trial_of h' subnet r) \<le> be_val (h ! e))
       \<and> (trial_of h' subnet (rnd 0) = h ! s \<and> be_val (h ! s) \<le> be_val (h ! e)
            \<and> \<not> in_leases h' leases' (h ! s)
            \<longrightarrow> FindFreeIP rnd h subnet leases (Some s) (Some e) = Some (Inr (h ! s, h')))
       \<and> (trial_of h' subnet (rnd 0) = h ! e \<and> be_val (h ! s) \<le> be_val (h ! e)
            \<and> \<not> in_leases h' leases' (h ! e)
            \<longrightarrow> FindFreeIP rnd h subnet leases (Some s) (Some e) = Some (Inr (h ! e, h')))"
proof -
  from FindFreeIP_init_Inr_lengths[OF init]
  have len: "4 \<le> length (bytes h (IP subnet))" "4 \<le> length (bytes h (Mask subnet))" by simp_all
  from init FindFreeIP_init_explicit[OF len, of leases s e]
  have h': "h' = h @ [broadcast_of (bytes h (IP subnet)) (bytes h (Mask subnet))]"
    and st: "start' = Some s" and en: "end' = Some e" by simp_all
  have bs: "bytes h' start' = h ! s" using s(1) by (simp add: h' st bytes_def nth_append)
  have be: "bytes h' end' = h ! e" using e(1) by (simp add: h' en bytes_def nth_append)
  have range: "\<not> outside_range h' start' end' t
                 \<longleftrightarrow> be_val (h ! s) \<le> be_val t \<and> be_val t \<le> be_val (h ! e)"
    if "length t = 16" for t
    using outside_range_be_val[of t h' start' end'] that s(2) e(2) by (simp add: bs be)
  have 1: "\<forall>ip hp. FindFreeIP rnd h subnet leases (Some s) (Some e) = Some (Inr (ip, hp))
            \<longrightarrow> be_val (h ! s) \<le> be_val ip \<and> be_val ip \<le> be_val (h ! e)"
  proof (intro allI impI)
    fix ip hp
    assume "FindFreeIP rnd h subnet leases (Some s) (Some e) = Some (Inr (ip, hp))"
    then obtain k where "accepted h' leases' start' end' (trial_of h' subnet (rnd k))"
      and "ip = trial_of h' subnet (rnd k)"
      using FindFreeIP_Some_iff[OF init, of rnd "Inr (ip, hp)"] by auto
    then show "be_val (h ! s) \<le> be_val ip \<and> be_val ip \<le> be_val (h ! e)"
      using range[of ip] by (simp add: accepted_def length_trial_of)
  qed
  have 2: "\<forall>r. \<not> outside_range h' start' end' (trial_of h' subnet r)
            \<longleftrightarrow> be_val (h ! s) \<le> be_val (trial_of h' subnet r)
                \<and> be_val (trial_of h' subnet r) \<le> be_val (h ! e)"
    using range by (simp add: length_trial_of)
  have 3: "FindFreeIP rnd h subnet leases (Some s) (Some e) = Some (Inr (t, h'))"
    if "trial_of h' subnet (rnd 0) = t" "be_val (h ! s) \<le> be_val t" "be_val t \<le> be_val (h ! e)"
      "\<not> in_leases h' leases' t" for t
  proof -
    have "length t = 16" using that(1) length_trial_of[of h' subnet "rnd 0"] by simp
    with that have "accepted h' leases' start' end' (trial_of h' subnet (rnd 0))"
      using range[of t] by (simp add: accepted_def)
    from FindFreeIP_first_draw[where rnd = rnd, OF init this] that(1) show ?thesis by simp
  qed
  show ?thesis using 1 2 3[of "h ! s"] 3[of "h ! e"] by simp
qed

lemma FindFreeIP_explicit_bounds_inclusive_run:
  "FindFreeIP_init heap_bounds subnet10 [] (Some 2) (Some 3) =
     Inr (heap_bounds @ [[10, 0, 0, 255]], [Some 0, Some 5], Some 2, Some 3)
   \<and> 2 < length heap_bounds \<and> length (heap_bounds ! 2) = 16
   \<and> 3 < length heap_bounds \<and> length (heap_bounds ! 3) = 16
   \<and> heap_bounds ! 2 = net_IPv4 10 0 0 10 \<and> heap_bounds ! 3 = net_IPv4 10 0 0 20
   \<and> FindFreeIP (draws 0x0A000000) heap_bounds subnet10 [] (Some 2) (Some 3) =
       Some (Inr (heap_bounds ! 2, heap_bounds @ [[10, 0, 0, 255]]))
   \<and> FindFreeIP (draws 0x14000000) heap_bounds subnet10 [] (Some 2) (Some 3) =
       Some (Inr (heap_bounds ! 3, heap_bounds @ [[10, 0, 0, 255]]))"
proof -
  have init: "FindFreeIP_init heap_bounds subnet10 [] (Some 2) (Some 3) =
     Inr (heap_bounds @ [[10, 0, 0, 255]], [Some 0, Some 5], Some 2, Some 3)"
    by code_simp
  have s: "2 < length heap_bounds" "length (heap_bounds ! 2) = 16"
    and e: "3 < length heap_bounds" "length (heap_bounds ! 3) = 16"
    by (simp_all add: heap_bounds_def net_IPv4_def v4InV6Prefix_def)
  have v: "heap_bounds ! 2 = net_IPv4 10 0 0 10" "heap_bounds ! 3 = net_IPv4 10 0 0 20"
    by (simp_all add: heap_bounds_def)
  have le: "be_val (heap_bounds ! 2) \<le> be_val (heap_bounds ! 3)"
    by (simp add: v net_IPv4_def v4InV6Prefix_def)
  have ts: "trial_of (heap_bounds @ [[10, 0, 0, 255]]) subnet10 (draws 0x0A000000 0) = heap_bounds ! 2"
    by code_simp
  have te: "trial_of (heap_bounds @ [[10, 0, 0, 255]]) subnet10 (draws 0x14000000 0) = heap_bounds ! 3"
    by code_simp
  have ls: "\<not> in_leases (heap_bounds @ [[10, 0, 0, 255]]) [Some 0, Some 5] (heap_bounds ! 2)"
    by code_simp
  have le': "\<not> in_leases (heap_bounds @ [[10, 0, 0, 255]]) [Some 0, Some 5] (heap_bounds ! 3)"
    by code_simp
  from FindFreeIP_explicit_bounds_inclusive[OF init s e, of "draws 0x0A000000"] ts le ls
  have a: "FindFreeIP (draws 0x0A000000) heap_bounds subnet10 [] (Some 2) (Some 3) =
       Some (Inr (heap_bounds ! 2, heap_bounds @ [[10, 0, 0, 255]]))" by blast
  from FindFreeIP_explicit_bounds_inclusive[OF init s e, of "draws 0x14000000"] te le le'
  have b: "FindFreeIP (draws 0x14000000) heap_bounds subnet10 [] (Some 2) (Some 3) =
       Some (Inr (heap_bounds ! 3, heap_bounds @ [[10, 0, 0, 255]]))" by blast
  from init s e v a b show ?thesis by blast
qed

lemma init_heap10:
  "FindFreeIP_init heap10 subnet10 leases10 None None =
     Inr ([[10, 0, 0, 1], [255, 255, 255, 0], net_IPv4 10 0 0 5, net_IPv4 10 0 0 1, [10, 0, 0, 254]],
          [Some 2, Some 3, Some 0, Some 4], Some 0, Some 4)"
  by code_simp

text \<open>
  For the subnet \<^verbatim>\<open>10.0.0.0/24\<close> with the lease \<^verbatim>\<open>10.0.0.5\<close> and the bridge address
  \<^verbatim>\<open>10.0.0.1\<close>, FindFreeIP with a nil start and end returns for no random source: the
  default start is the 4-byte slice of \<^verbatim>\<open>subnet.IP\<close>, and every 16-byte candidate compares
  below it.
\<close>

lemma FindFreeIP_default_range_never_returns:
  "FindFreeIP rnd heap10 subnet10 leases10 None None = None"
proof -
  have "outside_range
          [[10, 0, 0, 1], [255, 255, 255, 0], net_IPv4 10 0 0 5, net_IPv4 10 0 0 1, [10, 0, 0, 254]]
          (Some 0) (Some 4)
          (trial_of [[10, 0, 0, 1], [255, 255, 255, 0], net_IPv4 10 0 0 5, net_IPv4 10 0 0 1,
                     [10, 0, 0, 254]] subnet10 r)" for r
    by (rule trial_below_nonzero_head[where x = 10 and xs = "[0, 0, 1]"]) (simp_all add: bytes_def)
  then show ?thesis
    by (simp add: FindFreeIP_None_iff[OF init_heap10] accepted_def)
qed

text \<open>
  With a nil start the function returns for no random source, whatever the leases and the
  end, as soon as the first byte of the 4-byte (or longer) \<^verbatim>\<open>subnet.IP\<close> is not 0.
\<close>

lemma FindFreeIP_nil_start_never_returns:
  assumes a: "IP subnet = Some a" "a < length h"
    and len: "4 \<le> length (h ! a)" "4 \<le> length (bytes h (Mask subnet))"
    and hd: "h ! a ! 0 \<noteq> 0"
  shows "FindFreeIP rnd h subnet leases None end0 = None"
proof -
  have ip: "bytes h (IP subnet) = h ! a" by (simp add: bytes_def a)
  obtain h' leases' start' end' where
    init: "FindFreeIP_init h subnet leases None end0 = Inr (h', leases', start', end')"
    using len ip by (cases "FindFreeIP_init h subnet leases None end0")
      (auto simp: FindFreeIP_init_def Let_def split: if_splits prod.splits)
  from FindFreeIP_init_nil_start_writes[OF init a]
  have w: "h' ! a = (h ! a)[3 := h ! a ! 3 + 1]" and st: "start' = Some a"
    and lh: "length h' = Suc (length h)" by simp_all
  obtain x xs where cons: "h ! a = x # xs" using len(1) by (cases "h ! a") auto
  with hd have x: "x \<noteq> 0" by simp
  have "xs \<noteq> []" using len(1) cons by auto
  then obtain y ys where "xs = y # ys" by (cases xs) auto
  with cons w have "bytes h' start' = x # (y # ys)[2 := (y # ys) ! 2 + 1]"
    using a(2) by (simp add: bytes_def st lh numeral_3_eq_3 numeral_2_eq_2)
  from trial_below_nonzero_head[OF this x]
  have "\<not> accepted h' leases' start' end' (trial_of h' subnet r)" for r
    by (simp add: accepted_def)
  then show ?thesis by (simp add: FindFreeIP_None_iff[OF init])
qed

text \<open>With a start of the caller, FindFreeIP leaves every array of the caller as it was.\<close>

lemma FindFreeIP_explicit_start_frame:
  assumes "FindFreeIP rnd h subnet leases (Some s) end0 = Some (Inr (ip, h'))"
  shows "take (length h) h' = h"
proof (cases "FindFreeIP_init h subnet leases (Some s) end0")
  case (Inl p)
  with assms show ?thesis by (simp add: FindFreeIP_def)
next
  case (Inr x)
  obtain h1 l1 s1 e1 where x: "x = (h1, l1, s1, e1)" by (cases x) auto
  with Inr assms have "h' = h1" by (auto simp: FindFreeIP_def split: option.splits)
  with FindFreeIP_init_explicit_start_frame[of h subnet leases s end0 h1 l1 s1 e1] Inr x
  show ?thesis by simp
qed

text \<open>
  Claim C3 says that with a nil start and end the first and the last usable address of the
  subnet can be returned when they are not leased. For \<^verbatim>\<open>10.0.0.0/24\<close> and no leases, the
  lease entries that were appended for the network and the broadcast address read
  \<^verbatim>\<open>10.0.0.1\<close> and \<^verbatim>\<open>10.0.0.254\<close> when the loop starts, since \<^verbatim>\<open>start\<close> and \<^verbatim>\<open>end\<close>
  share their arrays; both addresses are found in the leases, and neither is accepted.
\<close>

theorem FindFreeIP_default_bounds_reserved:
  "FindFreeIP_init heap10 subnet10 [] None None =
     Inr ([[10, 0, 0, 1], [255, 255, 255, 0], net_IPv4 10 0 0 5, net_IPv4 10 0 0 1, [10, 0, 0, 254]],
          [Some 0, Some 4], Some 0, Some 4)
   \<and> in_leases [[10, 0, 0, 1], [255, 255, 255, 0], net_IPv4 10 0 0 5, net_IPv4 10 0 0 1,
                 [10, 0, 0, 254]] [Some 0, Some 4] (net_IPv4 10 0 0 1)
   \<and> in_leases [[10, 0, 0, 1], [255, 255, 255, 0], net_IPv4 10 0 0 5, net_IPv4 10 0 0 1,
                 [10, 0, 0, 254]] [Some 0, Some 4] (net_IPv4 10 0 0 254)
   \<and> \<not> accepted [[10, 0, 0, 1], [255, 255, 255, 0], net_IPv4 10 0 0 5, net_IPv4 10 0 0 1,
                   [10, 0, 0, 254]] [Some 0, Some 4] (Some 0) (Some 4) (net_IPv4 10 0 0 1)
   \<and> \<not> accepted [[10, 0, 0, 1], [255, 255, 255, 0], net_IPv4 10 0 0 5, net_IPv4 10 0 0 1,
                   [10, 0, 0, 254]] [Some 0, Some 4] (Some 0) (Some 4) (net_IPv4 10 0 0 254)"
  by code_simp

text \<open>
  Claim C4 says that FindFreeIP leaves the subnet's address unchanged after it returns.
  For the \<^verbatim>\<open>IPNet\<close> with address \<^verbatim>\<open>0.0.0.255\<close> and mask \<^verbatim>\<open>255.255.255.0\<close> and a nil start
  it returns \<^verbatim>\<open>0.0.0.7\<close>, and the array of \<^verbatim>\<open>subnet.IP\<close> then holds \<^verbatim>\<open>0.0.0.0\<close>. For
  \<^verbatim>\<open>10.0.0.0/24\<close> the array holds \<^verbatim>\<open>10.0.0.1\<close> when the loop is entered.
\<close>

theorem FindFreeIP_writes_subnet_IP:
  "bytes heap255 (IP subnet10) = [0, 0, 0, 255]
   \<and> FindFreeIP (draws 0x07000000) heap255 subnet10 [] None None =
       Some (Inr (net_IPv4 0 0 0 7, [[0, 0, 0, 0], [255, 255, 255, 0], [0, 0, 0, 254]]))
   \<and> bytes [[0, 0, 0, 0], [255, 255, 255, 0], [0, 0, 0, 254]] (IP subnet10) = [0, 0, 0, 0]
   \<and> bytes heap10 (IP subnet10) = [10, 0, 0, 0]
   \<and> map_sum id (\<lambda>(h', leases', start', end'). bytes h' (IP subnet10))
         (FindFreeIP_init heap10 subnet10 leases10 None None) = Inr [10, 0, 0, 1]"
  by code_simp

text \<open>
  Claim C1 says that every address that FindFreeIP returns for a nil start and end is in the
  subnet, is not in the leases and is neither the network nor the broadcast address. For the
  \<^verbatim>\<open>IPNet\<close> with address \<^verbatim>\<open>0.0.0.255\<close> and mask \<^verbatim>\<open>255.255.255.0\<close> and no leases, the
  broadcast address is \<^verbatim>\<open>0.0.0.255\<close>, and FindFreeIP returns it when it is drawn: the lease
  entry appended for it shares its array with \<^verbatim>\<open>end\<close> and reads \<^verbatim>\<open>0.0.0.254\<close> after
  \<^verbatim>\<open>end[3]--\<close>, and the 4-byte \<^verbatim>\<open>end\<close> is above every 16-byte candidate.
\<close>

theorem FindFreeIP_nil_bounds_returns_broadcast:
  "bytes heap255 (IP subnet10) = [0, 0, 0, 255]
   \<and> bytes heap255 (Mask subnet10) = [255, 255, 255, 0]
   \<and> broadcast_of (bytes heap255 (IP subnet10)) (bytes heap255 (Mask subnet10)) = [0, 0, 0, 255]
   \<and> FindFreeIP (draws 0xFF000000) heap255 subnet10 [] None None =
       Some (Inr (net_IPv4 0 0 0 255, [[0, 0, 0, 0], [255, 255, 255, 0], [0, 0, 0, 254]]))
   \<and> IP_Equal (net_IPv4 0 0 0 255)
        (broadcast_of (bytes heap255 (IP subnet10)) (bytes heap255 (Mask subnet10)))
   \<and> bytes [[0, 0, 0, 0], [255, 255, 255, 0], [0, 0, 0, 254]] (Some 2) = [0, 0, 0, 254]"
  by code_simp

section \<open>The other FindFreeIP on the same inputs\<close>

lemma FindFreeIP_init_part000_frame:
  assumes "FindFreeIP_init_part000 h subnet leases start end0 = Inr (h', leases', start', end')"
  shows "take (length h) h' = h"
  using assms
  by (auto simp: FindFreeIP_init_part000_def Let_def split: if_splits)

lemma FindFreeIP_part000_heap10:
  "FindFreeIP_part000 (draws 0x07000000) heap10 subnet10 leases10 None None =
     Some (Inr (net_IPv4 10 0 0 7,
                heap10 @ [[10, 0, 0, 255], net_IPv4 10 0 0 1, net_IPv4 10 0 0 254]))"
  by code_simp

lemma outside_range_part000_bounds:
  "outside_range_part000 h start end0 (bytes h start)"
  "outside_range_part000 h start end0 (bytes h end0)"
  by (simp_all add: outside_range_part000_def bytes_Compare_refl)

text \<open>What the other loop returns has passed its range test, so it is neither bound.\<close>

lemma FindFreeIP_loop_part000_SomeD:
  assumes "FindFreeIP_loop_part000 rnd h subnet leases start end0 n = Some y"
  shows "\<not> outside_range_part000 h start end0 y \<and> \<not> in_leases h leases y"
proof (rule FindFreeIP_loop_part000.raw_induct[where P = "\<lambda>rnd h subnet leases start end0 n y.
     \<not> outside_range_part000 h start end0 y \<and> \<not> in_leases h leases y", OF _ assms])
  fix loop rnd h subnet leases start end0 n y
  assume IH: "\<And>rnd h subnet leases start end0 n y. loop rnd h subnet leases start end0 n = Some y \<Longrightarrow>
     \<not> outside_range_part000 h start end0 y \<and> \<not> in_leases h leases y"
    and body: "(let trial = trial_of h subnet (rnd n) in
      if outside_range_part000 h start end0 trial then loop rnd h subnet leases start end0 (Suc n)
      else if in_leases h leases trial then loop rnd h subnet leases start end0 (Suc n)
      else Some trial) = Some y"
  show "\<not> outside_range_part000 h start end0 y \<and> \<not> in_leases h leases y"
  proof (cases "outside_range_part000 h start end0 (trial_of h subnet (rnd n))
                \<or> in_leases h leases (trial_of h subnet (rnd n))")
    case True
    with body have "loop rnd h subnet leases start end0 (Suc n) = Some y"
      by (auto simp: Let_def split: if_splits)
    from IH[OF this] show ?thesis .
  next
    case False
    with body have "y = trial_of h subnet (rnd n)" by (simp add: Let_def)
    with False show ?thesis by simp
  qed
qed

lemma FindFreeIP_part000_never_returns_bound:
  assumes init: "FindFreeIP_init_part000 h subnet leases start end0 = Inr (h', leases', start', end')"
    and run: "FindFreeIP_part000 rnd h subnet leases start end0 = Some (Inr (ip, hp))"
  shows "ip \<noteq> bytes h' start' \<and> ip \<noteq> bytes h' end'"
proof -
  from init run have "FindFreeIP_loop_part000 rnd h' subnet leases' start' end' 0 = Some ip"
    by (auto simp: FindFreeIP_part000_def split: option.splits)
  from FindFreeIP_loop_part000_SomeD[OF this] outside_range_part000_bounds[of h' start' end']
  show ?thesis by auto
qed

section \<open>Claims about EnsureBridge\<close>

lemma put_Config_values:
  "put_Config address ''ipv4.address'' = Some address"
  "put_Config address ''ipv4.dhcp'' = Some ''true''"
  "put_Config address ''ipv4.nat'' = Some ''true''"
  "put_Config address ''ipv6.address'' = Some ''none''"
  "put_Config address ''raw.dnsmasq'' = Some ''port=0''"
  by (simp_all add: put_Config_def FormatBool_def)

lemma dom_put_Config:
  "dom (put_Config address) =
     {''ipv4.address'', ''ipv4.dhcp'', ''ipv4.nat'', ''ipv6.address'', ''raw.dnsmasq''}"
  by (auto simp: put_Config_def split: if_splits)

lemma bridge_address_empty: "bridge_address lib [] = Inr ''auto''"
  by (simp add: bridge_address_def)

text \<open>
  Claim C6. EnsureBridge for \<^verbatim>\<open>"br0"\<close> with an empty cidr and createOnly false, for any
  value of nat, when GetNetwork reports not-found: it makes the GetNetwork call and then one
  CreateNetwork call, of a managed network of type \<^verbatim>\<open>"bridge"\<close> whose configuration has
  \<^verbatim>\<open>ipv4.address\<close> \<^verbatim>\<open>"auto"\<close>, \<^verbatim>\<open>ipv4.dhcp\<close> \<^verbatim>\<open>"true"\<close>, \<^verbatim>\<open>ipv4.nat\<close> \<^verbatim>\<open>"true"\<close> and
  \<^verbatim>\<open>ipv6.address\<close> \<^verbatim>\<open>"none"\<close>; it returns what that call returns, and makes no update.
\<close>

theorem EnsureBridge_creates_missing_bridge:
  assumes "GetNetwork srv ''br0'' s = (Inl ErrorLXDNotFound, s1)"
  shows "EnsureBridge srv lib ''br0'' [] nat' False s =
           (Inr (fst (CreateNetwork srv
                    \<lparr>Description = ''managed by LXE, default bridge'',
                     Config = Some (put_Config ''auto''),
                     Name = ''br0'', Type = ''bridge'', Managed = True\<rparr> s1)),
            [GetNetworkCall ''br0'',
             CreateNetworkCall
               \<lparr>Description = ''managed by LXE, default bridge'',
                Config = Some (put_Config ''auto''),
                Name = ''br0'', Type = ''bridge'', Managed = True\<rparr>],
            snd (CreateNetwork srv
                    \<lparr>Description = ''managed by LXE, default bridge'',
                     Config = Some (put_Config ''auto''),
                     Name = ''br0'', Type = ''bridge'', Managed = True\<rparr> s1))
       \<and> put_Config ''auto'' ''ipv4.address'' = Some ''auto''
       \<and> put_Config ''auto'' ''ipv4.dhcp'' = Some ''true''
       \<and> put_Config ''auto'' ''ipv4.nat'' = Some ''true''
       \<and> put_Config ''auto'' ''ipv6.address'' = Some ''none''"
  using assms
  by (simp add: EnsureBridge_def bridge_address_empty put_Config_values Let_def
           split: prod.splits)

theorem EnsureBridge_creates_missing_bridge_witness:
  "GetNetwork lxd_server ''br0'' Map.empty = (Inl ErrorLXDNotFound, Map.empty)
   \<and> fst (EnsureBridge lxd_server no_netpkg ''br0'' [] True False Map.empty) = Inr None
   \<and> fst (snd (EnsureBridge lxd_server no_netpkg ''br0'' [] True False Map.empty)) =
       [GetNetworkCall ''br0'',
        CreateNetworkCall
          \<lparr>Description = ''managed by LXE, default bridge'', Config = Some (put_Config ''auto''),
           Name = ''br0'', Type = ''bridge'', Managed = True\<rparr>]"
proof -
  have g: "GetNetwork lxd_server ''br0'' Map.empty = (Inl ErrorLXDNotFound, Map.empty)"
    by (simp add: lxd_server_def lxd_GetNetwork_def)
  have c: "fst (CreateNetwork lxd_server
                 \<lparr>Description = ''managed by LXE, default bridge'',
                  Config = Some (put_Config ''auto''),
                  Name = ''br0'', Type = ''bridge'', Managed = True\<rparr> Map.empty) = None"
    by (simp add: lxd_server_def lxd_CreateNetwork_def)
  from EnsureBridge_creates_missing_bridge[where lib = no_netpkg and nat' = True, OF g] g c
  show ?thesis by simp
qed

lemma map_add_twice: "m ++ p ++ p = m ++ p"
  by (rule ext) (simp add: map_add_def split: option.splits)

text \<open>
  Claim C7. For an existing bridge with a configuration \<open>cfg\<close>, and a cidr that is empty or
  parses, EnsureBridge with createOnly false makes one UpdateNetwork call, with the version
  token that its own GetNetwork returned and with the configuration \<open>cfg\<close> overridden by the
  desired keys: a desired key has the desired value, every other key the value it had. A
  second run that finds this configuration submits the same configuration again.
\<close>

theorem EnsureBridge_merges_existing_bridge:
  assumes "GetNetwork srv name s = (Inr (network, ETag), s1)"
    and "Type network = ''bridge''"
    and "Config network = Some cfg"
    and "bridge_address lib cidr = Inr address"
  shows "EnsureBridge srv lib name cidr nat' False s =
           (Inr (fst (UpdateNetwork srv name
                    \<lparr>Description = Description network,
                     Config = Some (cfg ++ put_Config address)\<rparr> ETag s1)),
            [GetNetworkCall name,
             UpdateNetworkCall name
               \<lparr>Description = Description network,
                Config = Some (cfg ++ put_Config address)\<rparr> ETag],
            snd (UpdateNetwork srv name
                    \<lparr>Description = Description network,
                     Config = Some (cfg ++ put_Config address)\<rparr> ETag s1))
       \<and> (\<forall>k v. put_Config address k = Some v \<longrightarrow> (cfg ++ put_Config address) k = Some v)
       \<and> (\<forall>k. k \<notin> dom (put_Config address) \<longrightarrow> (cfg ++ put_Config address) k = cfg k)
       \<and> (\<forall>s' network2 ETag2 s2.
             GetNetwork srv name s' = (Inr (network2, ETag2), s2)
             \<and> Type network2 = ''bridge''
             \<and> Config network2 = Some (cfg ++ put_Config address)
             \<longrightarrow> fst (snd (EnsureBridge srv lib name cidr nat' False s')) =
                   [GetNetworkCall name,
                    UpdateNetworkCall name
                      \<lparr>Description = Description network2,
                       Config = Some (cfg ++ put_Config address)\<rparr> ETag2])"
proof (intro conjI)
  show "EnsureBridge srv lib name cidr nat' False s =
           (Inr (fst (UpdateNetwork srv name
                    \<lparr>Description = Description network,
                     Config = Some (cfg ++ put_Config address)\<rparr> ETag s1)),
            [GetNetworkCall name,
             UpdateNetworkCall name
               \<lparr>Description = Description network,
                Config = Some (cfg ++ put_Config address)\<rparr> ETag],
            snd (UpdateNetwork srv name
                    \<lparr>Description = Description network,
                     Config = Some (cfg ++ put_Config address)\<rparr> ETag s1))"
    using assms
    by (simp add: EnsureBridge_def Writable_def Let_def split: prod.splits)
  show "\<forall>k v. put_Config address k = Some v \<longrightarrow> (cfg ++ put_Config address) k = Some v"
    by (simp add: map_add_Some_iff)
  show "\<forall>k. k \<notin> dom (put_Config address) \<longrightarrow> (cfg ++ put_Config address) k = cfg k"
    by (simp add: map_add_dom_app_simps)
  show "\<forall>s' network2 ETag2 s2.
             GetNetwork srv name s' = (Inr (network2, ETag2), s2)
             \<and> Type network2 = ''bridge''
             \<and> Config network2 = Some (cfg ++ put_Config address)
             \<longrightarrow> fst (snd (EnsureBridge srv lib name cidr nat' False s')) =
                   [GetNetworkCall name,
                    UpdateNetworkCall name
                      \<lparr>Description = Description network2,
                       Config = Some (cfg ++ put_Config address)\<rparr> ETag2]"
    using assms(4)
    by (simp add: EnsureBridge_def Writable_def Let_def map_add_twice split: prod.splits)
qed

theorem EnsureBridge_merges_existing_bridge_witness:
  "GetNetwork lxd_server ''br0'' lxd_br0 = (Inr (br0, ''7''), lxd_br0)
   \<and> Type br0 = ''bridge''
   \<and> Config br0 = Some [''ipv4.nat'' \<mapsto> ''false'', ''user.x'' \<mapsto> ''y'']
   \<and> bridge_address no_netpkg [] = Inr ''auto''
   \<and> EnsureBridge lxd_server no_netpkg ''br0'' [] True False lxd_br0 =
       (Inr None,
        [GetNetworkCall ''br0'',
         UpdateNetworkCall ''br0''
           \<lparr>Description = ''old'',
            Config = Some ([''ipv4.nat'' \<mapsto> ''false'', ''user.x'' \<mapsto> ''y''] ++ put_Config ''auto'')\<rparr>
           ''7''],
        lxd_br0_merged)
   \<and> ([''ipv4.nat'' \<mapsto> ''false'', ''user.x'' \<mapsto> ''y''] ++ put_Config ''auto'') ''ipv4.nat''
       = Some ''true''
   \<and> ([''ipv4.nat'' \<mapsto> ''false'', ''user.x'' \<mapsto> ''y''] ++ put_Config ''auto'') ''user.x''
       = Some ''y''
   \<and> fst (snd (EnsureBridge lxd_server no_netpkg ''br0'' [] True False lxd_br0_merged)) =
       [GetNetworkCall ''br0'',
        UpdateNetworkCall ''br0''
          \<lparr>Description = ''old'',
           Config = Some ([''ipv4.nat'' \<mapsto> ''false'', ''user.x'' \<mapsto> ''y''] ++ put_Config ''auto'')\<rparr>
          ''7+'']"
proof -
  define merged where
    "merged = [''ipv4.nat'' \<mapsto> ''false'', ''user.x'' \<mapsto> ''y''] ++ put_Config ''auto''"
  have g: "GetNetwork lxd_server ''br0'' lxd_br0 = (Inr (br0, ''7''), lxd_br0)"
    by (simp add: lxd_server_def lxd_GetNetwork_def lxd_br0_def)
  have t: "Type br0 = ''bridge''" by (simp add: br0_def)
  have c: "Config br0 = Some [''ipv4.nat'' \<mapsto> ''false'', ''user.x'' \<mapsto> ''y'']"
    by (simp add: br0_def)
  have d: "Description br0 = ''old''" by (simp add: br0_def)
  have nat: "put_Config ''auto'' ''ipv4.nat'' = Some ''true''"
    by (simp add: put_Config_values)
  have x: "''user.x'' \<notin> dom (put_Config ''auto'')"
    by (simp add: dom_put_Config)
  have u: "UpdateNetwork lxd_server ''br0'' \<lparr>Description = ''old'', Config = Some merged\<rparr> ''7'' lxd_br0
             = (None, lxd_br0_merged)"
    by (simp add: lxd_server_def lxd_UpdateNetwork_def lxd_br0_def lxd_br0_merged_def br0_def
          merged_def)
  have g2: "GetNetwork lxd_server ''br0'' lxd_br0_merged =
              (Inr (br0\<lparr>Config := Some merged\<rparr>, ''7+''), lxd_br0_merged)"
    by (simp add: lxd_server_def lxd_GetNetwork_def lxd_br0_merged_def merged_def)
  have t2: "Type (br0\<lparr>Config := Some merged\<rparr>) = ''bridge''"
    and d2: "Description (br0\<lparr>Config := Some merged\<rparr>) = ''old''"
    and c2: "Config (br0\<lparr>Config := Some merged\<rparr>) = Some merged"
    by (simp_all add: br0_def)
  note mrg = EnsureBridge_merges_existing_bridge[where lib = no_netpkg and nat' = True,
      OF g t c bridge_address_empty, folded merged_def]
  from mrg have run: "EnsureBridge lxd_server no_netpkg ''br0'' [] True False lxd_br0 =
       (Inr None,
        [GetNetworkCall ''br0'',
         UpdateNetworkCall ''br0'' \<lparr>Description = ''old'', Config = Some merged\<rparr> ''7''],
        lxd_br0_merged)"
    by (simp add: d u)
  from mrg nat have k1: "merged ''ipv4.nat'' = Some ''true''" by blast
  from mrg x have k2: "merged ''user.x'' = Some ''y''" by simp
  from mrg have idem: "fst (snd (EnsureBridge lxd_server no_netpkg ''br0'' [] True False s')) =
       [GetNetworkCall ''br0'',
        UpdateNetworkCall ''br0'' \<lparr>Description = Description network2, Config = Some merged\<rparr> ETag2]"
    if "GetNetwork lxd_server ''br0'' s' = (Inr (network2, ETag2), s2)"
      and "Type network2 = ''bridge''" and "Config network2 = Some merged"
    for s' network2 ETag2 s2
    using that by blast
  from idem[OF g2 t2 c2] have again:
    "fst (snd (EnsureBridge lxd_server no_netpkg ''br0'' [] True False lxd_br0_merged)) =
       [GetNetworkCall ''br0'',
        UpdateNetworkCall ''br0'' \<lparr>Description = ''old'', Config = Some merged\<rparr> ''7+'']"
    by (simp add: d2)
  from g t c run k1 k2 again show ?thesis
    by (simp add: bridge_address_empty merged_def)
qed

text \<open>Two runs against the remote controller of this file leave the configuration of one.\<close>

lemma EnsureBridge_twice_lxd:
  "map_option (Config \<circ> fst)
     (snd (snd (EnsureBridge lxd_server no_netpkg ''br0'' [] n False
        (snd (snd (EnsureBridge lxd_server no_netpkg ''br0'' [] n False lxd_br0))))) ''br0'')
   = map_option (Config \<circ> fst)
     (snd (snd (EnsureBridge lxd_server no_netpkg ''br0'' [] n False lxd_br0)) ''br0'')"
  by (simp add: EnsureBridge_def bridge_address_empty lxd_server_def lxd_GetNetwork_def
        lxd_UpdateNetwork_def lxd_br0_def br0_def Writable_def Let_def map_add_twice)


text \<open>
  Claim C8. For an existing network of type \<^verbatim>\<open>"bridge"\<close>, EnsureBridge with createOnly true
  makes no CreateNetwork and no UpdateNetwork call, whatever the cidr; when the cidr is empty
  or parses it returns nil after the one GetNetwork call, and the remote side is as that
  call left it.
\<close>

theorem EnsureBridge_createOnly_leaves_existing_bridge:
  assumes "GetNetwork srv name s = (Inr (network, ETag), s1)"
    and "Type network = ''bridge''"
  shows "(\<forall>c \<in> set (fst (snd (EnsureBridge srv lib name cidr nat' True s))). \<not> is_write c)
       \<and> (\<forall>address. bridge_address lib cidr = Inr address
            \<longrightarrow> EnsureBridge srv lib name cidr nat' True s = (Inr None, [GetNetworkCall name], s1))"
  using assms
  by (auto simp: EnsureBridge_def Let_def split: sum.splits prod.splits)

theorem EnsureBridge_createOnly_leaves_existing_bridge_witness:
  "GetNetwork lxd_server ''br0'' lxd_br0 = (Inr (br0, ''7''), lxd_br0)
   \<and> Type br0 = ''bridge''
   \<and> bridge_address no_netpkg [] = Inr ''auto''
   \<and> EnsureBridge lxd_server no_netpkg ''br0'' [] True True lxd_br0 =
        (Inr None, [GetNetworkCall ''br0''], lxd_br0)
   \<and> \<not> is_write (GetNetworkCall ''br0'')"
proof -
  have g: "GetNetwork lxd_server ''br0'' lxd_br0 = (Inr (br0, ''7''), lxd_br0)"
    by (simp add: lxd_server_def lxd_GetNetwork_def lxd_br0_def)
  have t: "Type br0 = ''bridge''" by (simp add: br0_def)
  from EnsureBridge_createOnly_leaves_existing_bridge[where lib = no_netpkg and cidr = "[]" and nat' = True, OF g t]
  show ?thesis using g t by (simp add: bridge_address_empty)
qed

text \<open>An unparsable cidr is returned as an error before any call is made.\<close>

lemma EnsureBridge_bad_cidr:
  "EnsureBridge srv no_netpkg name ''x'' nat' createOnly s =
     (Inr (Some ''invalid CIDR address: x''), [], s)"
  by (simp add: EnsureBridge_def bridge_address_def no_netpkg_def)

text \<open>
  Claim C10. EnsureBridge does the same for nat true and nat false, and every network it
  creates or updates has \<^verbatim>\<open>ipv4.nat\<close> set to \<^verbatim>\<open>"true"\<close>.
\<close>

theorem EnsureBridge_ignores_nat:
  "EnsureBridge srv lib name cidr True createOnly s = EnsureBridge srv lib name cidr False createOnly s
   \<and> (\<forall>c \<in> set (fst (snd (EnsureBridge srv lib name cidr nat' createOnly s))). sets_nat_true c)"
  by (auto simp: EnsureBridge_def Let_def Writable_def nat_enabled_def put_Config_values
           split: sum.splits prod.splits option.splits if_splits)

theorem EnsureBridge_ignores_nat_witness:
  "fst (snd (EnsureBridge lxd_server no_netpkg ''br0'' [] False False Map.empty)) =
       [GetNetworkCall ''br0'',
        CreateNetworkCall
          \<lparr>Description = ''managed by LXE, default bridge'', Config = Some (put_Config ''auto''),
           Name = ''br0'', Type = ''bridge'', Managed = True\<rparr>]
   \<and> sets_nat_true (CreateNetworkCall
          \<lparr>Description = ''managed by LXE, default bridge'', Config = Some (put_Config ''auto''),
           Name = ''br0'', Type = ''bridge'', Managed = True\<rparr>)
   \<and> EnsureBridge lxd_server no_netpkg ''br0'' [] True False Map.empty
       = EnsureBridge lxd_server no_netpkg ''br0'' [] False False Map.empty"
proof -
  have calls: "fst (snd (EnsureBridge lxd_server no_netpkg ''br0'' [] False False Map.empty)) =
       [GetNetworkCall ''br0'',
        CreateNetworkCall
          \<lparr>Description = ''managed by LXE, default bridge'', Config = Some (put_Config ''auto''),
           Name = ''br0'', Type = ''bridge'', Managed = True\<rparr>]"
    by (simp add: EnsureBridge_def bridge_address_empty lxd_server_def lxd_GetNetwork_def
          lxd_CreateNetwork_def Let_def)
  from EnsureBridge_ignores_nat[where srv = lxd_server and lib = no_netpkg and name = "''br0''"
      and cidr = "[]" and createOnly = False and s = Map.empty and nat' = False]
  show ?thesis by (simp add: calls)
qed

section \<open>Claims about DetachCNI\<close>

text \<open>
  Claim C9. Once the sandbox is resolved, DetachCNI looks the process state up. On the
  not-found error it calls the CNI delete with process ID 0 and returns its result; on any
  other error it returns that error and makes no CNI delete; on success it calls the CNI
  delete with the process ID of the state.
\<close>

theorem DetachCNI_state_lookup:
  assumes "Sandbox_lookup rt c w = (Inr s, w1)"
  shows "(\<forall>w2. State_lookup rt c w1 = (Inl ErrorLXDNotFound, w2) \<longrightarrow>
            DetachCNI rt c w =
              (fst (DetachCNIInterface rt (Namespace (Metadata s)) (Metadata_Name (Metadata s))
                      (ID c) 0 w2),
               [SandboxCall, StateCall,
                DetachCNIInterfaceCall (Namespace (Metadata s)) (Metadata_Name (Metadata s)) (ID c) 0],
               snd (DetachCNIInterface rt (Namespace (Metadata s)) (Metadata_Name (Metadata s))
                      (ID c) 0 w2)))
       \<and> (\<forall>err w2. State_lookup rt c w1 = (Inl err, w2) \<and> err \<noteq> ErrorLXDNotFound \<longrightarrow>
            DetachCNI rt c w = (Some err, [SandboxCall, StateCall], w2))
       \<and> (\<forall>st w2. State_lookup rt c w1 = (Inr st, w2) \<longrightarrow>
            DetachCNI rt c w =
              (fst (DetachCNIInterface rt (Namespace (Metadata s)) (Metadata_Name (Metadata s))
                      (ID c) (Pid st) w2),
               [SandboxCall, StateCall,
                DetachCNIInterfaceCall (Namespace (Metadata s)) (Metadata_Name (Metadata s)) (ID c)
                  (Pid st)],
               snd (DetachCNIInterface rt (Namespace (Metadata s)) (Metadata_Name (Metadata s))
                      (ID c) (Pid st) w2)))"
  using assms
  by (simp add: DetachCNI_def Let_def split: prod.splits)

theorem DetachCNI_state_lookup_witness:
  "Sandbox_lookup (test_runtime (Inl ErrorLXDNotFound)) \<lparr>ID = ''c1''\<rparr> 0 =
     (Inr \<lparr>Metadata = \<lparr>Namespace = ''default'', Metadata_Name = ''nginx''\<rparr>\<rparr>, 1)
   \<and> DetachCNI (test_runtime (Inl ErrorLXDNotFound)) \<lparr>ID = ''c1''\<rparr> 0 =
       (None, [SandboxCall, StateCall, DetachCNIInterfaceCall ''default'' ''nginx'' ''c1'' 0], 3)
   \<and> DetachCNI (test_runtime (Inl ''boom'')) \<lparr>ID = ''c1''\<rparr> 0 =
       (Some ''boom'', [SandboxCall, StateCall], 2)
   \<and> DetachCNI (test_runtime (Inr \<lparr>Pid = 4711\<rparr>)) \<lparr>ID = ''c1''\<rparr> 0 =
       (None, [SandboxCall, StateCall, DetachCNIInterfaceCall ''default'' ''nginx'' ''c1'' 4711], 3)"
proof -
  have sb: "Sandbox_lookup (test_runtime st) \<lparr>ID = ''c1''\<rparr> 0 =
     (Inr \<lparr>Metadata = \<lparr>Namespace = ''default'', Metadata_Name = ''nginx''\<rparr>\<rparr>, 1)" for st
    by (simp add: test_runtime_def)
  have st: "State_lookup (test_runtime st) \<lparr>ID = ''c1''\<rparr> 1 = (st, 2)" for st
    by (simp add: test_runtime_def)
  have dt: "DetachCNIInterface (test_runtime st) ns n i pid 2 = (None, 3)" for st ns n i pid
    by (simp add: test_runtime_def)
  have ne: "''boom'' \<noteq> ErrorLXDNotFound" by (simp add: ErrorLXDNotFound_def)
  from DetachCNI_state_lookup[OF sb[of "Inl ErrorLXDNotFound"]] st[of "Inl ErrorLXDNotFound"]
  have a: "DetachCNI (test_runtime (Inl ErrorLXDNotFound)) \<lparr>ID = ''c1''\<rparr> 0 =
       (None, [SandboxCall, StateCall, DetachCNIInterfaceCall ''default'' ''nginx'' ''c1'' 0], 3)"
    by (simp add: dt)
  from DetachCNI_state_lookup[OF sb[of "Inl ''boom''"]] st[of "Inl ''boom''"] ne
  have b: "DetachCNI (test_runtime (Inl ''boom'')) \<lparr>ID = ''c1''\<rparr> 0 =
       (Some ''boom'', [SandboxCall, StateCall], 2)"
    by simp
  from DetachCNI_state_lookup[OF sb[of "Inr \<lparr>Pid = 4711\<rparr>"]] st[of "Inr \<lparr>Pid = 4711\<rparr>"]
  have c: "DetachCNI (test_runtime (Inr \<lparr>Pid = 4711\<rparr>)) \<lparr>ID = ''c1''\<rparr> 0 =
       (None, [SandboxCall, StateCall, DetachCNIInterfaceCall ''default'' ''nginx'' ''c1'' 4711], 3)"
    by (simp add: dt)
  from sb a b c show ?thesis by simp
qed

lemma DetachCNI_sandbox_error:
  assumes "Sandbox_lookup rt c w = (Inl err, w1)"
  shows "DetachCNI rt c w = (Some err, [SandboxCall], w1)"
  using assms by (simp add: DetachCNI_def)

end
